theory Spec2Isabelle
  imports Main "HOL-Library.Sublist"
begin

section \<open>Data model (types.ts)\<close>

text \<open>
  The interview screen of the application (the component \<open>InterviewScreen\<close>) together with
  the two pieces of host state it writes (\<open>appState\<close> and \<open>results\<close> of \<open>App\<close>).
  Strings are character lists; every character stands for one code unit below 256.
\<close>

datatype AppState = SETUP | GENERATING | INTERVIEW | ANALYZING | FEEDBACK | COMPLETE

record InterviewQuestion =
  question :: string
  persona :: string
  keywords' :: "string list"

text \<open>
  The third field of \<open>InterviewQuestion\<close> is \<open>keywords\<close> in the source; the name is
  reserved here, hence the prime.
\<close>

datatype Rating = Beginner | Intermediate | Advanced

text \<open>
  \<open>score\<close> is a JavaScript number; the screen only stores and forwards it, so an integer
  payload stands for it here.
\<close>

record AnswerFeedback =
  strengths :: "string list"
  weaknesses :: "string list"
  idealAnswer :: string
  spokenFeedback :: string
  score :: int
  rating :: Rating
  matchedKeywords :: "string list"
  missedKeywords :: "string list"

text \<open>
  \<open>InterviewResult\<close> has the fields \<open>question\<close>, \<open>answer\<close> and \<open>feedback\<close>; the first and
  the last are prefixed here, because \<open>question\<close> is a field of \<open>InterviewQuestion\<close> and
  \<open>feedback\<close> a state variable of the screen.
\<close>

record InterviewResult =
  result_question :: InterviewQuestion
  answer :: string
  result_feedback :: AnswerFeedback

datatype SpeechState = Idle | Playing | Paused | Ended

section \<open>Calls that leave the component\<close>

text \<open>
  Every call to the browser or to the evaluator service is recorded, in order, in a log.
  \<open>TypeError\<close> is the uncaught exception of a method call on the null \<open>recognition\<close>.
\<close>

datatype effect =
    SynthCancel
  | SynthSpeak string
  | SynthPause
  | SynthResume
  | RecognitionStart
  | RecognitionStop
  | Alert string
  | ConsoleError
  | AnalyzeAnswer string string "string list"
  | TypeError

text \<open>
  The state of the screen: the module constant \<open>recognition\<close> (true when the browser
  offers speech recognition, false when the constant is null), the props and host state
  (\<open>questions\<close>, \<open>appState\<close>, and \<open>appResults\<close> for the \<open>results\<close> of \<open>App\<close>), the
  \<open>useState\<close> variables of the component in their order of declaration, the utterance
  reference (the text of the utterance it holds), and the log of outside calls.
\<close>

record state =
  recognition :: bool
  questions :: "InterviewQuestion list"
  appState :: AppState
  appResults :: "InterviewResult list"
  currentQuestionIndex :: nat
  isListening :: bool
  transcript :: string
  finalTranscript :: string
  textAnswer :: string
  feedback :: "AnswerFeedback option"
  isAnalyzing :: bool
  results :: "InterviewResult list"
  speechState :: SpeechState
  utteranceRef :: "string option"
  effects :: "effect list"

definition emit :: "effect list \<Rightarrow> state \<Rightarrow> state" where
  "emit es s = s\<lparr>effects := effects s @ es\<rparr>"

section \<open>Strings\<close>

text \<open>
  \<open>String.prototype.trim\<close> removes white space and line terminators at both ends. Among
  the code units below 256 these are TAB, LF, VT, FF, CR, SPACE and the no-break space.
\<close>

definition isWhiteSpace :: "char \<Rightarrow> bool" where
  "isWhiteSpace c = (c \<in> set [CHR 0x09, CHR 0x0A, CHR 0x0B, CHR 0x0C, CHR 0x0D, CHR '' '', CHR 0xA0])"

definition trim :: "string \<Rightarrow> string" where
  "trim s = rev (dropWhile isWhiteSpace (rev (dropWhile isWhiteSpace s)))"

section \<open>The handlers of InterviewScreen\<close>

text \<open>\<open>speak\<close>: cancel whatever is playing, remember the new utterance, start it.\<close>

definition speak :: "string \<Rightarrow> state \<Rightarrow> state" where
  "speak text s = (emit [SynthCancel, SynthSpeak text] s)\<lparr>utteranceRef := Some text\<rparr>"

text \<open>
  The answer \<open>handleSubmitAnswer\<close> submits. \<open>a || b\<close> on strings is \<open>a\<close> unless \<open>a\<close> is
  empty.
\<close>

definition spokenAnswer :: "string option \<Rightarrow> state \<Rightarrow> string" where
  "spokenAnswer answerOverride s =
     trim (case answerOverride of
             Some a \<Rightarrow> a
           | None \<Rightarrow> (if finalTranscript s \<noteq> [] then finalTranscript s else transcript s))"

definition answerToSubmit :: "string option \<Rightarrow> state \<Rightarrow> string" where
  "answerToSubmit answerOverride s =
     trim (if spokenAnswer answerOverride s \<noteq> [] then spokenAnswer answerOverride s
           else textAnswer s)"

text \<open>
  The \<open>catch\<close> and \<open>finally\<close> blocks of \<open>handleSubmitAnswer\<close>, and what follows the
  \<open>await\<close> when the evaluator answers. The question and the answer are the ones the call
  was issued with.
\<close>

definition analysisError :: string where
  "analysisError = ''There was an error analyzing your answer. Please try again.''"

definition analysis_failed :: "state \<Rightarrow> state" where
  "analysis_failed s =
     (emit [ConsoleError, Alert analysisError] s)\<lparr>appState := INTERVIEW, isAnalyzing := False\<rparr>"

type_synonym call = "InterviewQuestion \<times> string"

definition analysis_succeeded :: "call \<Rightarrow> AnswerFeedback \<Rightarrow> state \<Rightarrow> state" where
  "analysis_succeeded c generatedFeedback s =
     (let s1 = (if spokenFeedback generatedFeedback \<noteq> []
                then speak (spokenFeedback generatedFeedback) s else s);
          newResult = \<lparr>result_question = fst c, answer = snd c,
                       result_feedback = generatedFeedback\<rparr>
      in s1\<lparr>feedback := Some generatedFeedback,
            appResults := appResults s1 @ [newResult],
            results := results s1 @ [newResult],
            appState := FEEDBACK,
            isAnalyzing := False\<rparr>)"

text \<open>
  \<open>handleSubmitAnswer\<close> up to its \<open>await\<close>. The result is the new state and the evaluator
  call left pending, if one was issued. Reading \<open>currentQuestion.question\<close> of a missing
  question throws inside the \<open>try\<close> block, which runs the \<open>catch\<close> block at once.
\<close>

definition submit_begin :: "string option \<Rightarrow> state \<Rightarrow> state \<times> call option" where
  "submit_begin answerOverride s =
     (let s1 = (if isListening s \<and> recognition s then emit [RecognitionStop] s else s);
          s2 = s1\<lparr>isAnalyzing := True, appState := ANALYZING\<rparr>;
          a = answerToSubmit answerOverride s
      in if a = [] then (s2\<lparr>isAnalyzing := False, appState := INTERVIEW\<rparr>, None)
         else if currentQuestionIndex s < length (questions s) then
           (let currentQuestion = questions s ! currentQuestionIndex s
            in (emit [AnalyzeAnswer (question currentQuestion) a (keywords' currentQuestion)] s2,
                Some (currentQuestion, a)))
         else (analysis_failed s2, None))"

text \<open>
  \<open>handleSubmitAnswer\<close> run to its end with no other event in between; the second
  argument is how the evaluator call settles (\<open>None\<close>: the promise is rejected).
\<close>

definition handleSubmitAnswer :: "string option \<Rightarrow> AnswerFeedback option \<Rightarrow> state \<Rightarrow> state" where
  "handleSubmitAnswer answerOverride outcome s =
     (case submit_begin answerOverride s of
        (s1, None) \<Rightarrow> s1
      | (s1, Some c) \<Rightarrow>
          (case outcome of
             Some generatedFeedback \<Rightarrow> analysis_succeeded c generatedFeedback s1
           | None \<Rightarrow> analysis_failed s1))"

text \<open>
  \<open>recognition.onresult\<close> and \<open>recognition.onend\<close>. The new transcript is built from the
  \<open>finalTranscript\<close> the callback captured when the effect installed it (the first
  argument); the update of \<open>finalTranscript\<close> itself is functional and reads the current
  value.
\<close>

fun chunks :: "bool \<Rightarrow> (string \<times> bool) list \<Rightarrow> string" where
  "chunks wanted [] = []"
| "chunks wanted ((chunk, isFinal) # rest) =
     (if isFinal = wanted then chunk @ chunks wanted rest else chunks wanted rest)"

definition onresult :: "string \<Rightarrow> nat \<Rightarrow> (string \<times> bool) list \<Rightarrow> state \<Rightarrow> state" where
  "onresult capturedFinalTranscript resultIndex eventResults s =
     (let final = chunks True (drop resultIndex eventResults);
          interimTranscript = chunks False (drop resultIndex eventResults);
          s1 = s\<lparr>transcript := capturedFinalTranscript @ final @ interimTranscript\<rparr>
      in if final \<noteq> [] then s1\<lparr>finalTranscript := trim (finalTranscript s @ '' '' @ final)\<rparr>
         else s1)"

definition onend :: "state \<Rightarrow> state" where
  "onend s = s\<lparr>isListening := False\<rparr>"

text \<open>
  \<open>handleToggleListening\<close>. With \<open>recognition\<close> null the method call throws; the state
  updates queued before the throw still take effect.
\<close>

definition handleToggleListening :: "state \<Rightarrow> state" where
  "handleToggleListening s =
     (if isListening s then
        (if recognition s then emit [RecognitionStop] s else emit [TypeError] s)
      else
        (let s1 = s\<lparr>transcript := [], finalTranscript := [], textAnswer := []\<rparr>
         in if recognition s then (emit [RecognitionStart] s1)\<lparr>isListening := True\<rparr>
            else emit [TypeError] s1))"

definition handleToggleSpokenFeedback :: "state \<Rightarrow> state" where
  "handleToggleSpokenFeedback s =
     (if speechState s = Playing then emit [SynthPause] s
      else if speechState s = Paused then emit [SynthResume] s
      else (case feedback s of
              None \<Rightarrow> s
            | Some f \<Rightarrow> (if spokenFeedback f \<noteq> [] then speak (spokenFeedback f) s else s)))"

text \<open>
  \<open>handleNextQuestion\<close>. The comparison is the source's, \<open>currentQuestionIndex <
  questions.length - 1\<close>, over the integers.
\<close>

definition handleNextQuestion :: "state \<Rightarrow> state" where
  "handleNextQuestion s =
     (let s1 = (emit [SynthCancel] s)\<lparr>speechState := Idle, feedback := None, transcript := [],
                                     finalTranscript := [], textAnswer := []\<rparr>
      in if int (currentQuestionIndex s) < int (length (questions s)) - 1
         then s1\<lparr>currentQuestionIndex := currentQuestionIndex s + 1, appState := INTERVIEW\<rparr>
         else s1\<lparr>appState := COMPLETE\<rparr>)"

text \<open>The \<open>onChange\<close> handler of the answer box.\<close>

definition onChange :: "string \<Rightarrow> state \<Rightarrow> state" where
  "onChange v s =
     (let s1 = s\<lparr>textAnswer := v\<rparr>
      in if isListening s then
           (if recognition s
            then (emit [RecognitionStop] s1)\<lparr>isListening := False, transcript := [],
                                             finalTranscript := []\<rparr>
            else emit [TypeError] s1)
         else s1\<lparr>transcript := [], finalTranscript := []\<rparr>)"

text \<open>The callbacks \<open>speak\<close> attaches to an utterance.\<close>

definition utterance_onstart :: "state \<Rightarrow> state" where
  "utterance_onstart s = s\<lparr>speechState := Playing\<rparr>"

definition utterance_onpause :: "state \<Rightarrow> state" where
  "utterance_onpause s = s\<lparr>speechState := Paused\<rparr>"

definition utterance_onresume :: "state \<Rightarrow> state" where
  "utterance_onresume s = s\<lparr>speechState := Playing\<rparr>"

definition utterance_onend :: "state \<Rightarrow> state" where
  "utterance_onend s = s\<lparr>speechState := Ended, utteranceRef := None\<rparr>"

definition utterance_onerror :: "state \<Rightarrow> state" where
  "utterance_onerror s = (emit [ConsoleError] s)\<lparr>speechState := Ended, utteranceRef := None\<rparr>"

section \<open>Rendering: effects and controls\<close>

text \<open>
  The first \<open>useEffect\<close> speaks the current question while no feedback is shown; its
  dependencies are the current question and the feedback. The second one reports a missing
  speech recognition (and returns no cleanup) or installs the recognition callbacks and
  returns the cleanup that cancels playback and stops recognition; its dependencies are
  \<open>finalTranscript\<close> and \<open>handleSubmitAnswer\<close>, and the latter is a \<open>useCallback\<close> that
  changes with \<open>isListening\<close>, \<open>finalTranscript\<close>, \<open>transcript\<close>, \<open>textAnswer\<close> and the
  current question (its other dependencies are stable).
\<close>

definition currentQuestion :: "state \<Rightarrow> InterviewQuestion option" where
  "currentQuestion s =
     (if currentQuestionIndex s < length (questions s)
      then Some (questions s ! currentQuestionIndex s) else None)"

definition questionEffect :: "state \<Rightarrow> state" where
  "questionEffect s =
     (case currentQuestion s of
        None \<Rightarrow> s
      | Some q \<Rightarrow>
          (if feedback s = None
           then speak (''Next question, from '' @ persona q @ ''. '' @ question q) s
           else s))"

definition unsupportedMessage :: string where
  "unsupportedMessage =
     ''Speech recognition is not supported in this browser. Please use Chrome or Edge.''"

definition recognitionEffect :: "state \<Rightarrow> state" where
  "recognitionEffect s = (if \<not> recognition s then emit [Alert unsupportedMessage] s else s)"

definition recognitionCleanup :: "state \<Rightarrow> state" where
  "recognitionCleanup s = (if recognition s then emit [SynthCancel, RecognitionStop] s else s)"

definition questionDeps :: "state \<Rightarrow> nat \<times> AnswerFeedback option" where
  "questionDeps s = (currentQuestionIndex s, feedback s)"

definition handleSubmitAnswerDeps :: "state \<Rightarrow> bool \<times> string \<times> string \<times> string \<times> nat" where
  "handleSubmitAnswerDeps s =
     (isListening s, finalTranscript s, transcript s, textAnswer s, currentQuestionIndex s)"

definition recognitionDeps :: "state \<Rightarrow> string \<times> bool \<times> string \<times> string \<times> string \<times> nat" where
  "recognitionDeps s = (finalTranscript s, handleSubmitAnswerDeps s)"

text \<open>
  \<open>App.renderContent\<close> renders the screen in the states \<open>INTERVIEW\<close>, \<open>ANALYZING\<close> and
  \<open>FEEDBACK\<close> only.
\<close>

definition mounted :: "state \<Rightarrow> bool" where
  "mounted s = (appState s = INTERVIEW \<or> appState s = ANALYZING \<or> appState s = FEEDBACK)"

text \<open>
  What runs after the render that follows an event, \<open>old\<close> being the state of the render
  before: the cleanups of the effects whose dependencies changed, then the bodies of
  those effects, in the order of declaration. Leaving the three states above unmounts
  the screen: the cleanups run and nothing else.
\<close>

definition commit :: "state \<Rightarrow> state \<Rightarrow> state" where
  "commit old new =
     (if \<not> mounted new then recognitionCleanup new
      else
        (let s1 = (if recognitionDeps old \<noteq> recognitionDeps new
                   then recognitionCleanup new else new);
             s2 = (if questionDeps old \<noteq> questionDeps new then questionEffect s1 else s1)
         in if recognitionDeps old \<noteq> recognitionDeps new then recognitionEffect s2 else s2))"

text \<open>
  The first render: the initial values of the state variables, then both effects.
  \<open>App.handleStartInterview\<close> enters the interview only with a non-empty list of
  questions and with empty results.
\<close>

definition initial :: "bool \<Rightarrow> InterviewQuestion list \<Rightarrow> state" where
  "initial rec qs =
     \<lparr>recognition = rec, questions = qs, appState = INTERVIEW, appResults = [],
      currentQuestionIndex = 0, isListening = False, transcript = [], finalTranscript = [],
      textAnswer = [], feedback = None, isAnalyzing = False, results = [],
      speechState = Idle, utteranceRef = None, effects = []\<rparr>"

definition mount :: "bool \<Rightarrow> InterviewQuestion list \<Rightarrow> state" where
  "mount rec qs = recognitionEffect (questionEffect (initial rec qs))"

text \<open>What the render offers to the user.\<close>

definition isInterviewOver :: "state \<Rightarrow> bool" where
  "isInterviewOver s = (currentQuestionIndex s \<ge> length (questions s))"

definition displayedAnswer :: "state \<Rightarrow> string" where
  "displayedAnswer s = (if isListening s \<or> transcript s \<noteq> [] then transcript s else textAnswer s)"

definition rendered :: "state \<Rightarrow> bool" where
  "rendered s = (mounted s \<and> \<not> isInterviewOver s)"

definition answerBoxEnabled :: "state \<Rightarrow> bool" where
  "answerBoxEnabled s = (rendered s \<and> feedback s = None \<and> \<not> (isAnalyzing s \<or> isListening s))"

definition controlsShown :: "state \<Rightarrow> bool" where
  "controlsShown s = (rendered s \<and> \<not> isAnalyzing s \<and> feedback s = None)"

definition submitEnabled :: "state \<Rightarrow> bool" where
  "submitEnabled s = (controlsShown s \<and> trim (displayedAnswer s) \<noteq> [])"

definition nextShown :: "state \<Rightarrow> bool" where
  "nextShown s = (rendered s \<and> \<not> isAnalyzing s \<and> feedback s \<noteq> None)"

definition feedbackCardShown :: "state \<Rightarrow> bool" where
  "feedbackCardShown s = (rendered s \<and> feedback s \<noteq> None)"

section \<open>The screen as an event-driven system\<close>

text \<open>
  The screen together with the evaluator calls that have not settled yet, oldest first.
  An event is a click, an edit of the answer box, the settling of the oldest pending call,
  or a callback of the speech devices. \<open>step\<close> is \<open>None\<close> when the render does not offer
  the control, no call is pending, or the callback is not installed. Every event is
  followed by its render and the effects of that render before the next event is
  handled; the recognition effect depends on \<open>finalTranscript\<close>, so the value the
  installed \<open>onresult\<close> captured is the current one.
\<close>

record sys =
  ui :: state
  inFlight :: "call list"

datatype event =
    ClickSubmit
  | Resolved AnswerFeedback
  | Rejected
  | ClickMicrophone
  | Edit string
  | ClickNext
  | ClickSpokenFeedback
  | RecognitionResult nat "(string \<times> bool) list"
  | RecognitionEnd
  | UtteranceStart
  | UtterancePause
  | UtteranceResume
  | UtteranceEnd
  | UtteranceError

definition after :: "sys \<Rightarrow> state \<Rightarrow> call list \<Rightarrow> sys option" where
  "after y s cs = Some \<lparr>ui = commit (ui y) s, inFlight = cs\<rparr>"

fun step :: "event \<Rightarrow> sys \<Rightarrow> sys option" where
  "step ClickSubmit y =
     (if submitEnabled (ui y) then
        (case submit_begin None (ui y) of
           (s1, None) \<Rightarrow> after y s1 (inFlight y)
         | (s1, Some c) \<Rightarrow> after y s1 (inFlight y @ [c]))
      else None)"
| "step (Resolved generatedFeedback) y =
     (case inFlight y of
        [] \<Rightarrow> None
      | c # cs \<Rightarrow>
          (if mounted (ui y) then after y (analysis_succeeded c generatedFeedback (ui y)) cs
           else None))"
| "step Rejected y =
     (case inFlight y of
        [] \<Rightarrow> None
      | c # cs \<Rightarrow> (if mounted (ui y) then after y (analysis_failed (ui y)) cs else None))"
| "step ClickMicrophone y =
     (if controlsShown (ui y) then after y (handleToggleListening (ui y)) (inFlight y)
      else None)"
| "step (Edit v) y =
     (if answerBoxEnabled (ui y) then after y (onChange v (ui y)) (inFlight y) else None)"
| "step ClickNext y =
     (if nextShown (ui y) then after y (handleNextQuestion (ui y)) (inFlight y) else None)"
| "step ClickSpokenFeedback y =
     (if feedbackCardShown (ui y) then after y (handleToggleSpokenFeedback (ui y)) (inFlight y)
      else None)"
| "step (RecognitionResult resultIndex eventResults) y =
     (if mounted (ui y) \<and> recognition (ui y)
      then after y (onresult (finalTranscript (ui y)) resultIndex eventResults (ui y))
             (inFlight y)
      else None)"
| "step RecognitionEnd y =
     (if mounted (ui y) \<and> recognition (ui y) then after y (onend (ui y)) (inFlight y)
      else None)"
| "step UtteranceStart y =
     (if mounted (ui y) then after y (utterance_onstart (ui y)) (inFlight y) else None)"
| "step UtterancePause y =
     (if mounted (ui y) then after y (utterance_onpause (ui y)) (inFlight y) else None)"
| "step UtteranceResume y =
     (if mounted (ui y) then after y (utterance_onresume (ui y)) (inFlight y) else None)"
| "step UtteranceEnd y =
     (if mounted (ui y) then after y (utterance_onend (ui y)) (inFlight y) else None)"
| "step UtteranceError y =
     (if mounted (ui y) then after y (utterance_onerror (ui y)) (inFlight y) else None)"

fun run :: "event list \<Rightarrow> sys \<Rightarrow> sys option" where
  "run [] y = Some y"
| "run (e # es) y = (case step e y of None \<Rightarrow> None | Some y' \<Rightarrow> run es y')"

definition boot :: "bool \<Rightarrow> InterviewQuestion list \<Rightarrow> sys" where
  "boot rec qs = \<lparr>ui = mount rec qs, inFlight = []\<rparr>"

section \<open>Sample data\<close>

definition q1 :: InterviewQuestion where
  "q1 = \<lparr>question = ''How do you review code?'', persona = ''Tech Lead'',
         keywords' = [''readability'', ''performance'']\<rparr>"

definition q2 :: InterviewQuestion where
  "q2 = \<lparr>question = ''Tell me about a conflict.'', persona = ''HR Manager'',
         keywords' = [''listening'']\<rparr>"

definition fb :: AnswerFeedback where
  "fb = \<lparr>strengths = [''clear''], weaknesses = [''short''], idealAnswer = ''An ideal answer.'',
         spokenFeedback = ''Good answer.'', score = 72, rating = Intermediate,
         matchedKeywords = [''readability''], missedKeywords = [''performance'']\<rparr>"

definition typed :: state where
  "typed = onChange ''hello'' (mount True [q1, q2])"

definition blank :: state where
  "blank = onChange ''  '' (mount True [q1, q2])"

definition dictated :: state where
  "dictated = onresult [] 0 [(''I think the answer is caching.'', True)]
                (handleToggleListening (mount True [q1, q2]))"

definition oneTurn :: "event list" where
  "oneTurn = [Edit ''hello'', ClickSubmit, Resolved fb]"

section \<open>Notions the properties are stated with\<close>

text \<open>The evaluator calls made so far, and the missing-recognition reports made so far.\<close>

definition evaluatorCalls :: "state \<Rightarrow> effect list" where
  "evaluatorCalls s =
     filter (\<lambda>e. case e of AnalyzeAnswer q a k \<Rightarrow> True | _ \<Rightarrow> False) (effects s)"

definition unsupportedReports :: "state \<Rightarrow> effect list" where
  "unsupportedReports s = filter (\<lambda>e. e = Alert unsupportedMessage) (effects s)"

text \<open>
  Presenting: the host state is \<open>INTERVIEW\<close>, no analysis runs and no feedback is shown.
\<close>

definition presenting :: "state \<Rightarrow> bool" where
  "presenting s = (appState s = INTERVIEW \<and> \<not> isAnalyzing s \<and> feedback s = None)"

text \<open>What \<open>handleSubmitAnswer\<close> tells the recognition device first.\<close>

definition stopCapture :: "state \<Rightarrow> effect list" where
  "stopCapture s = (if isListening s \<and> recognition s then [RecognitionStop] else [])"


text \<open>
  At most one input mode holds text: nothing is typed, or both transcript buffers are
  empty. An override the claim is about: none (the submit button passes none), or one
  that is not blank.
\<close>

definition singleInputMode :: "state \<Rightarrow> bool" where
  "singleInputMode s = (textAnswer s = [] \<or> (transcript s = [] \<and> finalTranscript s = []))"


text \<open>
  The recognition device delivers results and its end only while it is capturing, that
  is, between a call of \<open>recognition.start\<close> (a click on the microphone while capture is
  inactive and recognition is there) and the delivery of its end. \<open>run_capture\<close> is
  \<open>run\<close> restricted to such sequences of events; the flag says whether the device is
  capturing.
\<close>

fun deviceAllows :: "event \<Rightarrow> bool \<Rightarrow> bool" where
  "deviceAllows (RecognitionResult resultIndex eventResults) capturing = capturing"
| "deviceAllows RecognitionEnd capturing = capturing"
| "deviceAllows e capturing = True"

fun capturingAfter :: "event \<Rightarrow> state \<Rightarrow> bool \<Rightarrow> bool" where
  "capturingAfter ClickMicrophone s capturing =
     (capturing \<or> (\<not> isListening s \<and> recognition s))"
| "capturingAfter RecognitionEnd s capturing = False"
| "capturingAfter e s capturing = capturing"

fun run_capture :: "event list \<Rightarrow> sys \<Rightarrow> bool \<Rightarrow> (sys \<times> bool) option" where
  "run_capture [] y capturing = Some (y, capturing)"
| "run_capture (e # es) y capturing =
     (if deviceAllows e capturing then
        (case step e y of
           None \<Rightarrow> None
         | Some y' \<Rightarrow> run_capture es y' (capturingAfter e (ui y) capturing))
      else None)"

definition capture_inv :: "sys \<Rightarrow> bool \<Rightarrow> bool" where
  "capture_inv y capturing =
     ((isListening (ui y) \<or> \<not> capturing)
      \<and> (textAnswer (ui y) = [] \<or> \<not> isListening (ui y))
      \<and> singleInputMode (ui y))"

text \<open>
  The fields the session invariant speaks about, and the invariant: the index is in range,
  at most one call is pending and \<open>isAnalyzing\<close> says whether one is, the host's results
  are the screen's, their number is the index plus one when feedback is shown or the
  interview is complete, and the host state agrees with the flags.
\<close>

definition core ::
  "state \<Rightarrow> InterviewQuestion list \<times> AppState \<times> InterviewResult list \<times> nat
     \<times> AnswerFeedback option \<times> bool \<times> InterviewResult list" where
  "core s = (questions s, appState s, appResults s, currentQuestionIndex s, feedback s,
             isAnalyzing s, results s)"

definition inv_core ::
  "InterviewQuestion list \<times> AppState \<times> InterviewResult list \<times> nat \<times> AnswerFeedback option
     \<times> bool \<times> InterviewResult list \<Rightarrow> call list \<Rightarrow> bool" where
  "inv_core k cs =
     (case k of (qs, st, ars, i, f, an, rs) \<Rightarrow>
        i < length qs \<and> length cs \<le> 1 \<and> an = (cs \<noteq> []) \<and> ars = rs
      \<and> length rs = i + (if f \<noteq> None \<or> st = COMPLETE then 1 else 0)
      \<and> (st = ANALYZING) = an \<and> (st = FEEDBACK) = (f \<noteq> None)
      \<and> st \<noteq> SETUP \<and> st \<noteq> GENERATING
      \<and> (st \<noteq> COMPLETE \<or> Suc i = length qs))"

definition session_inv :: "sys \<Rightarrow> bool" where
  "session_inv y = inv_core (core (ui y)) (inFlight y)"

section \<open>Auxiliary facts\<close>

lemmas handler_defs = emit_def speak_def analysis_failed_def analysis_succeeded_def submit_begin_def
  handleSubmitAnswer_def onresult_def onend_def handleToggleListening_def handleToggleSpokenFeedback_def
  handleNextQuestion_def onChange_def utterance_onstart_def utterance_onpause_def utterance_onresume_def
  utterance_onend_def utterance_onerror_def

lemmas render_defs = currentQuestion_def questionEffect_def recognitionEffect_def recognitionCleanup_def
  commit_def






lemma trim_Nil: "trim [] = []"
  by (simp add: trim_def)

lemma commit_fields:
  "recognition (commit old new) = recognition new"
  "questions (commit old new) = questions new"
  "appState (commit old new) = appState new"
  "appResults (commit old new) = appResults new"
  "currentQuestionIndex (commit old new) = currentQuestionIndex new"
  "isListening (commit old new) = isListening new"
  "transcript (commit old new) = transcript new"
  "finalTranscript (commit old new) = finalTranscript new"
  "textAnswer (commit old new) = textAnswer new"
  "feedback (commit old new) = feedback new"
  "isAnalyzing (commit old new) = isAnalyzing new"
  "results (commit old new) = results new"
  "speechState (commit old new) = speechState new"
  by (simp_all add: render_defs emit_def speak_def Let_def split: option.split)

lemma core_commit: "core (commit old new) = core new"
  by (simp add: core_def commit_fields)

lemma core_inert:
  "core (handleToggleListening s) = core s"
  "core (onChange v s) = core s"
  "core (handleToggleSpokenFeedback s) = core s"
  "core (onresult ft i rs s) = core s"
  "core (onend s) = core s"
  "core (utterance_onstart s) = core s"
  "core (utterance_onpause s) = core s"
  "core (utterance_onresume s) = core s"
  "core (utterance_onend s) = core s"
  "core (utterance_onerror s) = core s"
  by (simp_all add: core_def handler_defs Let_def split: option.split)

lemma core_submit_begin:
  "core (fst (submit_begin ov s)) =
     (questions s,
      (if snd (submit_begin ov s) = None then INTERVIEW else ANALYZING),
      appResults s, currentQuestionIndex s, feedback s,
      snd (submit_begin ov s) \<noteq> None, results s)"
  by (simp add: core_def submit_begin_def analysis_failed_def emit_def Let_def)

lemma core_analysis_succeeded:
  "core (analysis_succeeded c f s) =
     (questions s, FEEDBACK,
      appResults s @ [\<lparr>result_question = fst c, answer = snd c, result_feedback = f\<rparr>],
      currentQuestionIndex s, Some f, False,
      results s @ [\<lparr>result_question = fst c, answer = snd c, result_feedback = f\<rparr>])"
  by (simp add: core_def analysis_succeeded_def speak_def emit_def Let_def)

lemma core_analysis_failed:
  "core (analysis_failed s) =
     (questions s, INTERVIEW, appResults s, currentQuestionIndex s, feedback s, False, results s)"
  by (simp add: core_def analysis_failed_def emit_def)

lemma core_handleNextQuestion:
  "core (handleNextQuestion s) =
     (questions s,
      (if Suc (currentQuestionIndex s) < length (questions s) then INTERVIEW else COMPLETE),
      appResults s,
      (if Suc (currentQuestionIndex s) < length (questions s) then Suc (currentQuestionIndex s)
       else currentQuestionIndex s),
      None, isAnalyzing s, results s)"
  by (auto simp: core_def handleNextQuestion_def emit_def Let_def)

lemma session_inv_core: "session_inv y = inv_core (core (ui y)) (inFlight y)"
  by (simp add: session_inv_def)

lemma boot_inv: "qs \<noteq> [] \<Longrightarrow> session_inv (boot rec qs)"
  by (simp add: session_inv_def inv_core_def core_def boot_def mount_def initial_def render_defs
      emit_def speak_def Let_def split: option.split)

lemma inv_after:
  assumes "after y s cs = Some y'" and "inv_core (core s) cs"
  shows "session_inv y'"
  using assms by (auto simp: after_def session_inv_core core_commit)

lemma inv_inert:
  assumes "session_inv y" and "after y s (inFlight y) = Some y'" and "core s = core (ui y)"
  shows "session_inv y'"
  using assms by (auto simp: after_def session_inv_core core_commit)

lemma step_inv:
  assumes "session_inv y" and "step e y = Some y'"
  shows "session_inv y'"
proof (cases e)
  case ClickSubmit
  with assms(2) have en: "submitEnabled (ui y)"
    by (simp split: if_splits)
  obtain s1 c where sb: "submit_begin None (ui y) = (s1, c)"
    by (cases "submit_begin None (ui y)")
  from en have ui: "\<not> isAnalyzing (ui y)" "feedback (ui y) = None" "mounted (ui y)"
    by (simp_all add: submitEnabled_def controlsShown_def rendered_def)
  have k: "core s1 = (questions (ui y), (if c = None then INTERVIEW else ANALYZING),
      appResults (ui y), currentQuestionIndex (ui y), feedback (ui y), c \<noteq> None, results (ui y))"
    using core_submit_begin [of None "ui y"] sb by simp
  from assms(1) ui have old: "inv_core (core (ui y)) []" "inFlight y = []"
    by (auto simp: session_inv_core inv_core_def core_def)
  have "inv_core (core s1) (case c of None \<Rightarrow> [] | Some c' \<Rightarrow> [c'])"
    using old(1) ui unfolding k
    by (cases c) (auto simp: inv_core_def core_def mounted_def split: if_splits)
  moreover have "after y s1 (case c of None \<Rightarrow> [] | Some c' \<Rightarrow> [c']) = Some y'"
    using assms(2) ClickSubmit en sb old(2) by (cases c) simp_all
  ultimately show ?thesis by (rule inv_after [rotated])
next
  case (Resolved f)
  with assms(2) obtain c cs where p: "inFlight y = c # cs" "mounted (ui y)"
    and a: "after y (analysis_succeeded c f (ui y)) cs = Some y'"
    by (auto split: list.splits if_splits)
  from assms(1) p have "cs = []" "inv_core (core (ui y)) [c]"
    by (auto simp: session_inv_core inv_core_def split: prod.splits)
  then have "inv_core (core (analysis_succeeded c f (ui y))) cs"
    using p(2) unfolding core_analysis_succeeded
    by (auto simp: inv_core_def core_def mounted_def split: if_splits)
  with a show ?thesis by (rule inv_after)
next
  case Rejected
  with assms(2) obtain c cs where p: "inFlight y = c # cs" "mounted (ui y)"
    and a: "after y (analysis_failed (ui y)) cs = Some y'"
    by (auto split: list.splits if_splits)
  from assms(1) p have "cs = []" "inv_core (core (ui y)) [c]"
    by (auto simp: session_inv_core inv_core_def split: prod.splits)
  then have "inv_core (core (analysis_failed (ui y))) cs"
    using p(2) unfolding core_analysis_failed
    by (auto simp: inv_core_def core_def mounted_def split: if_splits)
  with a show ?thesis by (rule inv_after)
next
  case ClickNext
  with assms(2) have en: "nextShown (ui y)"
    and a: "after y (handleNextQuestion (ui y)) (inFlight y) = Some y'"
    by (simp_all split: if_splits)
  from en have ui: "\<not> isAnalyzing (ui y)" "feedback (ui y) \<noteq> None" "mounted (ui y)"
    by (simp_all add: nextShown_def rendered_def)
  from assms(1) have "inv_core (core (ui y)) (inFlight y)"
    by (simp add: session_inv_core)
  then have "inv_core (core (handleNextQuestion (ui y))) (inFlight y)"
    using ui unfolding core_handleNextQuestion
    by (auto simp: inv_core_def core_def mounted_def split: if_splits)
  with a show ?thesis by (rule inv_after)
next
  case ClickMicrophone
  with assms show ?thesis
    by (auto split: if_splits intro: inv_inert simp: core_inert)
next
  case (Edit v)
  with assms show ?thesis
    by (auto split: if_splits intro: inv_inert simp: core_inert)
next
  case ClickSpokenFeedback
  with assms show ?thesis
    by (auto split: if_splits intro: inv_inert simp: core_inert)
next
  case (RecognitionResult i rs)
  with assms show ?thesis
    by (auto split: if_splits intro: inv_inert simp: core_inert)
next
  case RecognitionEnd
  with assms show ?thesis
    by (auto split: if_splits intro: inv_inert simp: core_inert)
next
  case UtteranceStart
  with assms show ?thesis
    by (auto split: if_splits intro: inv_inert simp: core_inert)
next
  case UtterancePause
  with assms show ?thesis
    by (auto split: if_splits intro: inv_inert simp: core_inert)
next
  case UtteranceResume
  with assms show ?thesis
    by (auto split: if_splits intro: inv_inert simp: core_inert)
next
  case UtteranceEnd
  with assms show ?thesis
    by (auto split: if_splits intro: inv_inert simp: core_inert)
next
  case UtteranceError
  with assms show ?thesis
    by (auto split: if_splits intro: inv_inert simp: core_inert)
qed

lemma run_inv: "session_inv y \<Longrightarrow> run es y = Some y' \<Longrightarrow> session_inv y'"
  by (induction es arbitrary: y) (auto split: option.splits dest: step_inv)

lemma results_submit_begin: "submit_begin ov s = (s1, c) \<Longrightarrow> results s1 = results s"
  using core_submit_begin [of ov s] by (simp add: core_def)

lemma step_results: "step e y = Some y' \<Longrightarrow> prefix (results (ui y)) (results (ui y'))"
proof (cases e)
  case ClickSubmit
  assume "step e y = Some y'"
  with ClickSubmit show ?thesis
    by (auto simp: after_def commit_fields results_submit_begin
        split: if_splits prod.splits option.splits)
qed (auto simp: after_def commit_fields handler_defs Let_def split: if_splits list.splits option.splits)

lemma run_results: "run es y = Some y' \<Longrightarrow> prefix (results (ui y)) (results (ui y'))"
proof (induction es arbitrary: y)
  case Nil
  then show ?case by simp
next
  case (Cons e es)
  then obtain z where z: "step e y = Some z" "run es z = Some y'"
    by (auto split: option.splits)
  from step_results [OF z(1)] Cons.IH [OF z(2)] show ?case
    by (rule prefix_order.trans)
qed

lemma session_inv_fields:
  assumes "session_inv y"
  shows "currentQuestionIndex (ui y) < length (questions (ui y))"
    and "length (inFlight y) \<le> 1"
    and "isAnalyzing (ui y) = (inFlight y \<noteq> [])"
    and "appResults (ui y) = results (ui y)"
    and "length (results (ui y)) = currentQuestionIndex (ui y)
           + (if feedback (ui y) \<noteq> None \<or> appState (ui y) = COMPLETE then 1 else 0)"
    and "(appState (ui y) = ANALYZING) = isAnalyzing (ui y)"
    and "(appState (ui y) = FEEDBACK) = (feedback (ui y) \<noteq> None)"
    and "appState (ui y) \<noteq> COMPLETE
           \<or> Suc (currentQuestionIndex (ui y)) = length (questions (ui y))"
  using assms by (simp_all add: session_inv_def inv_core_def core_def)

lemma reach_inv: "run es (boot rec qs) = Some y \<Longrightarrow> qs \<noteq> [] \<Longrightarrow> session_inv y"
  using boot_inv run_inv by blast


lemma input_commit:
  "isListening (commit old new) = isListening new"
  "transcript (commit old new) = transcript new"
  "finalTranscript (commit old new) = finalTranscript new"
  "textAnswer (commit old new) = textAnswer new"
  by (rule commit_fields)+

lemma input_submit_begin:
  "isListening (fst (submit_begin ov s)) = isListening s"
  "transcript (fst (submit_begin ov s)) = transcript s"
  "finalTranscript (fst (submit_begin ov s)) = finalTranscript s"
  "textAnswer (fst (submit_begin ov s)) = textAnswer s"
  by (simp_all add: submit_begin_def analysis_failed_def emit_def Let_def)

lemma step_capture_inv:
  assumes "capture_inv y capturing" and "deviceAllows e capturing" and "step e y = Some y'"
  shows "capture_inv y' (capturingAfter e (ui y) capturing)"
proof (cases e)
  case ClickSubmit
  with assms(3) obtain s1 c where "submit_begin None (ui y) = (s1, c)"
    and "ui y' = commit (ui y) s1"
    by (auto simp: after_def split: if_splits prod.splits option.splits)
  then have "isListening (ui y') = isListening (ui y)" "transcript (ui y') = transcript (ui y)"
    "finalTranscript (ui y') = finalTranscript (ui y)" "textAnswer (ui y') = textAnswer (ui y)"
    using input_submit_begin [of None "ui y"] by (simp_all add: input_commit)
  with assms(1) ClickSubmit show ?thesis
    by (simp add: capture_inv_def singleInputMode_def)
next
  case (Resolved f)
  with assms show ?thesis
    by (auto simp: capture_inv_def singleInputMode_def after_def input_commit
        analysis_succeeded_def speak_def emit_def Let_def split: if_splits list.splits)
next
  case Rejected
  with assms show ?thesis
    by (auto simp: capture_inv_def singleInputMode_def after_def input_commit
        analysis_failed_def emit_def split: if_splits list.splits)
next
  case ClickMicrophone
  with assms show ?thesis
    by (auto simp: capture_inv_def singleInputMode_def after_def input_commit
        handleToggleListening_def emit_def Let_def split: if_splits)
next
  case (Edit v)
  with assms show ?thesis
    by (auto simp: capture_inv_def singleInputMode_def after_def input_commit
        answerBoxEnabled_def onChange_def emit_def Let_def split: if_splits)
next
  case ClickNext
  with assms show ?thesis
    by (auto simp: capture_inv_def singleInputMode_def after_def input_commit
        handleNextQuestion_def emit_def Let_def split: if_splits)
next
  case ClickSpokenFeedback
  with assms show ?thesis
    by (auto simp: capture_inv_def singleInputMode_def after_def input_commit
        handleToggleSpokenFeedback_def speak_def emit_def split: if_splits option.splits)
next
  case (RecognitionResult i rs)
  with assms show ?thesis
    by (auto simp: capture_inv_def singleInputMode_def after_def input_commit
        onresult_def Let_def split: if_splits)
next
  case RecognitionEnd
  with assms show ?thesis
    by (auto simp: capture_inv_def singleInputMode_def after_def input_commit
        onend_def split: if_splits)
next
  case UtteranceStart
  with assms show ?thesis
    by (auto simp: capture_inv_def singleInputMode_def after_def input_commit
        utterance_onstart_def split: if_splits)
next
  case UtterancePause
  with assms show ?thesis
    by (auto simp: capture_inv_def singleInputMode_def after_def input_commit
        utterance_onpause_def split: if_splits)
next
  case UtteranceResume
  with assms show ?thesis
    by (auto simp: capture_inv_def singleInputMode_def after_def input_commit
        utterance_onresume_def split: if_splits)
next
  case UtteranceEnd
  with assms show ?thesis
    by (auto simp: capture_inv_def singleInputMode_def after_def input_commit
        utterance_onend_def split: if_splits)
next
  case UtteranceError
  with assms show ?thesis
    by (auto simp: capture_inv_def singleInputMode_def after_def input_commit
        utterance_onerror_def emit_def split: if_splits)
qed

lemma run_capture_inv:
  "capture_inv y capturing \<Longrightarrow> run_capture es y capturing = Some (y', capturing')
     \<Longrightarrow> capture_inv y' capturing'"
proof (induction es arbitrary: y capturing)
  case Nil
  then show ?case by simp
next
  case (Cons e es)
  from Cons.prems(2) obtain z where a: "deviceAllows e capturing" and z: "step e y = Some z"
    and r: "run_capture es z (capturingAfter e (ui y) capturing) = Some (y', capturing')"
    by (auto split: if_splits option.splits)
  from step_capture_inv [OF Cons.prems(1) a z] r show ?case
    by (rule Cons.IH)
qed

lemma run_capture_run: "run_capture es y capturing = Some (y', capturing') \<Longrightarrow> run es y = Some y'"
  by (induction es arbitrary: y capturing) (auto split: if_splits option.splits)

lemma boot_capture_inv: "capture_inv (boot rec qs) False"
  by (simp add: capture_inv_def singleInputMode_def boot_def mount_def initial_def render_defs
      emit_def speak_def split: option.split)

text \<open>
  The input modes exclude each other in every state the screen reaches while the device
  keeps to its protocol.
\<close>

lemma single_input_mode_reached:
  "run_capture es (boot rec qs) False = Some (y, capturing) \<Longrightarrow> singleInputMode (ui y)"
  using run_capture_inv [OF boot_capture_inv] by (auto simp: capture_inv_def)

text \<open>A dictated answer, from the click on the microphone to the submit, is such a run.\<close>

lemma dictation_is_a_run:
  "map_option (answerToSubmit None \<circ> ui \<circ> fst)
     (run_capture [ClickMicrophone, RecognitionResult 0 [(''I think'', False)],
                   RecognitionResult 0 [(''I think the answer is caching.'', True)],
                   RecognitionEnd]
        (boot True [q1, q2]) False)
   = Some ''I think the answer is caching.''"
  by code_simp

section \<open>Submitting an answer\<close>

text \<open>
  C1. While an analysis is in flight the footer renders the spinner in place of the
  controls, so submit cannot be invoked again and nothing is queued: in every state the
  screen reaches from its first render through rendered controls, settled calls and
  device callbacks, at most one evaluator call is pending, \<open>isAnalyzing\<close> is set exactly
  while one is, and while it is set a click on the submit button is not possible.
\<close>

theorem one_call_in_flight:
  assumes "run es (boot rec qs) = Some y" and "qs \<noteq> []"
  shows "length (inFlight y) \<le> 1
       \<and> isAnalyzing (ui y) = (inFlight y \<noteq> [])
       \<and> (if isAnalyzing (ui y) then \<not> controlsShown (ui y) \<and> step ClickSubmit y = None
          else True)"
  using session_inv_fields(2,3) [OF reach_inv [OF assms]]
  by (simp add: submitEnabled_def controlsShown_def)

text \<open>C1, an instance: after typing and one click on submit, a second click is not offered.\<close>

theorem one_call_in_flight_witness:
  "\<exists>y. run [Edit ''hello'', ClickSubmit] (boot True [q1, q2]) = Some y
     \<and> inFlight y = [(q1, ''hello'')] \<and> isAnalyzing (ui y) \<and> step ClickSubmit y = None"
proof -
  have "run [Edit ''hello'', ClickSubmit] (boot True [q1, q2]) \<noteq> None"
    by code_simp
  then obtain y where r: "run [Edit ''hello'', ClickSubmit] (boot True [q1, q2]) = Some y"
    by auto
  have "map_option inFlight (run [Edit ''hello'', ClickSubmit] (boot True [q1, q2]))
          = Some [(q1, ''hello'')]"
    by code_simp
  with r have c: "inFlight y = [(q1, ''hello'')]"
    by simp
  have "[q1, q2] \<noteq> []" by simp
  from one_call_in_flight [OF r this] c r show ?thesis
    by auto
qed



text \<open>
  C3. When the resolved answer is empty, a submit in the presenting state makes no call to
  the evaluator and leaves every field of the screen and of the host as it was: the
  controller is presenting the same question. The only outside call is the stop of a
  running capture.
\<close>

theorem empty_answer_rejected:
  assumes "answerToSubmit answerOverride s = []" and "presenting s"
  shows "snd (submit_begin answerOverride s) = None
    \<and> evaluatorCalls (handleSubmitAnswer answerOverride outcome s) = evaluatorCalls s
    \<and> presenting (handleSubmitAnswer answerOverride outcome s)
    \<and> currentQuestionIndex (handleSubmitAnswer answerOverride outcome s) = currentQuestionIndex s
    \<and> handleSubmitAnswer answerOverride outcome s = s\<lparr>effects := effects s @ stopCapture s\<rparr>"
  using assms
  by (simp add: handler_defs presenting_def evaluatorCalls_def stopCapture_def)

text \<open>C3, an instance: two typed spaces.\<close>

theorem empty_answer_rejected_witness:
  "answerToSubmit None blank = [] \<and> presenting blank
   \<and> snd (submit_begin None blank) = None
   \<and> evaluatorCalls (handleSubmitAnswer None (Some fb) blank) = []
   \<and> handleSubmitAnswer None (Some fb) blank = blank"
proof -
  have a: "answerToSubmit None blank = []" and b: "presenting blank"
    and c: "evaluatorCalls blank = []" "stopCapture blank = []"
    by code_simp+
  from empty_answer_rejected [OF a b, of "Some fb"] a b c show ?thesis
    by simp
qed

text \<open>
  C4. When the evaluator answers with feedback \<open>f\<close>, the result made of the current
  question, the resolved answer and \<open>f\<close> is appended to the results of the screen and of
  the host, \<open>f\<close> becomes the feedback shown, the host state is \<open>FEEDBACK\<close>, the analysis
  flag is cleared, and the spoken feedback, when not empty, is played.
\<close>

theorem successful_analysis:
  assumes "answerToSubmit answerOverride s \<noteq> []"
    and "currentQuestionIndex s < length (questions s)"
  shows "let s' = handleSubmitAnswer answerOverride (Some f) s;
             q = questions s ! currentQuestionIndex s;
             r = \<lparr>result_question = q, answer = answerToSubmit answerOverride s,
                  result_feedback = f\<rparr>
         in results s' = results s @ [r] \<and> appResults s' = appResults s @ [r]
          \<and> feedback s' = Some f \<and> appState s' = FEEDBACK \<and> \<not> isAnalyzing s'
          \<and> effects s' = effects s @ stopCapture s
               @ [AnalyzeAnswer (question q) (answerToSubmit answerOverride s) (keywords' q)]
               @ (if spokenFeedback f \<noteq> [] then [SynthCancel, SynthSpeak (spokenFeedback f)]
                  else [])"
  using assms
  by (simp add: handler_defs stopCapture_def Let_def)

text \<open>C4, an instance: the typed answer \<open>hello\<close> to the first question.\<close>

theorem successful_analysis_witness:
  "answerToSubmit None typed = ''hello'' \<and> currentQuestionIndex typed = 0
   \<and> results (handleSubmitAnswer None (Some fb) typed)
       = [\<lparr>result_question = q1, answer = ''hello'', result_feedback = fb\<rparr>]
   \<and> feedback (handleSubmitAnswer None (Some fb) typed) = Some fb
   \<and> appState (handleSubmitAnswer None (Some fb) typed) = FEEDBACK
   \<and> effects (handleSubmitAnswer None (Some fb) typed)
       = effects typed @ [AnalyzeAnswer (question q1) ''hello'' (keywords' q1),
                          SynthCancel, SynthSpeak ''Good answer.'']"
proof -
  have a: "answerToSubmit None typed \<noteq> []"
    and b: "currentQuestionIndex typed < length (questions typed)"
    and c: "answerToSubmit None typed = ''hello''" "currentQuestionIndex typed = 0"
      "questions typed = [q1, q2]" "results typed = []" "stopCapture typed = []"
      "spokenFeedback fb = ''Good answer.''"
    by code_simp+
  from successful_analysis [OF a b, of fb] c show ?thesis
    by (simp add: Let_def)
qed

text \<open>
  C5, as stated, fails. After a failed analysis the typed text is still \<open>hello\<close>, and a
  dictated answer is still in both transcript buffers: nothing is discarded.
\<close>

theorem failed_analysis_keeps_input:
  "textAnswer (handleSubmitAnswer None None typed) = ''hello''
   \<and> finalTranscript (handleSubmitAnswer None None dictated) = ''I think the answer is caching.''
   \<and> transcript (handleSubmitAnswer None None dictated) = ''I think the answer is caching.''"
  by code_simp

text \<open>
  C5, amended. When the evaluator call fails, the error is logged and shown in an alert,
  the host state is \<open>INTERVIEW\<close> again with the analysis flag cleared, at the same question
  and with the results and the feedback as they were; the transcript buffers and the typed
  text are kept as they were.
\<close>

theorem failed_analysis:
  assumes "answerToSubmit answerOverride s \<noteq> []"
    and "currentQuestionIndex s < length (questions s)"
  shows "let s' = handleSubmitAnswer answerOverride None s;
             q = questions s ! currentQuestionIndex s
         in effects s' = effects s @ stopCapture s
               @ [AnalyzeAnswer (question q) (answerToSubmit answerOverride s) (keywords' q),
                  ConsoleError, Alert analysisError]
          \<and> appState s' = INTERVIEW \<and> \<not> isAnalyzing s'
          \<and> currentQuestionIndex s' = currentQuestionIndex s
          \<and> results s' = results s \<and> appResults s' = appResults s \<and> feedback s' = feedback s
          \<and> transcript s' = transcript s \<and> finalTranscript s' = finalTranscript s
          \<and> textAnswer s' = textAnswer s \<and> isListening s' = isListening s"
  using assms
  by (simp add: handler_defs stopCapture_def Let_def)

text \<open>C5, an instance: the typed answer \<open>hello\<close>, the call fails.\<close>

theorem failed_analysis_witness:
  "answerToSubmit None typed = ''hello'' \<and> currentQuestionIndex typed = 0
   \<and> appState (handleSubmitAnswer None None typed) = INTERVIEW
   \<and> currentQuestionIndex (handleSubmitAnswer None None typed) = 0
   \<and> results (handleSubmitAnswer None None typed) = []
   \<and> textAnswer (handleSubmitAnswer None None typed) = textAnswer typed
   \<and> effects (handleSubmitAnswer None None typed)
       = effects typed @ [AnalyzeAnswer (question q1) ''hello'' (keywords' q1),
                          ConsoleError, Alert analysisError]"
proof -
  have a: "answerToSubmit None typed \<noteq> []"
    and b: "currentQuestionIndex typed < length (questions typed)"
    and c: "answerToSubmit None typed = ''hello''" "currentQuestionIndex typed = 0"
      "questions typed = [q1, q2]" "results typed = []" "stopCapture typed = []"
    by code_simp+
  from failed_analysis [OF a b] c show ?thesis
    by (simp add: Let_def)
qed

text \<open>
  C8, as stated, fails. After a successful analysis of a dictated answer both transcript
  buffers still hold the dictated text.
\<close>

theorem success_keeps_transcripts:
  "appState (handleSubmitAnswer None (Some fb) dictated) = FEEDBACK
   \<and> finalTranscript (handleSubmitAnswer None (Some fb) dictated)
       = ''I think the answer is caching.''
   \<and> transcript (handleSubmitAnswer None (Some fb) dictated)
       = ''I think the answer is caching.''"
  by code_simp

text \<open>
  C8, amended. A successful analysis sets the host state, the results of the host and of
  the screen, the feedback, the analysis flag, the utterance and the log of outside
  calls, and nothing else: the questions, the index, the capture flag, both transcript
  buffers and the typed text are as before (the buffers are reset by the advance).
\<close>

theorem successful_analysis_frame:
  assumes "answerToSubmit answerOverride s \<noteq> []"
    and "currentQuestionIndex s < length (questions s)"
  shows "let q = questions s ! currentQuestionIndex s;
             r = \<lparr>result_question = q, answer = answerToSubmit answerOverride s,
                  result_feedback = f\<rparr>
         in handleSubmitAnswer answerOverride (Some f) s =
            s\<lparr>appState := FEEDBACK, appResults := appResults s @ [r], feedback := Some f,
              isAnalyzing := False, results := results s @ [r],
              utteranceRef := (if spokenFeedback f \<noteq> [] then Some (spokenFeedback f)
                               else utteranceRef s),
              effects := effects s @ stopCapture s
               @ [AnalyzeAnswer (question q) (answerToSubmit answerOverride s) (keywords' q)]
               @ (if spokenFeedback f \<noteq> [] then [SynthCancel, SynthSpeak (spokenFeedback f)]
                  else [])\<rparr>"
  using assms
  by (simp add: handler_defs stopCapture_def Let_def)

text \<open>C8, an instance: the dictated answer, analysed with success.\<close>

theorem successful_analysis_frame_witness:
  "answerToSubmit None dictated = ''I think the answer is caching.''
   \<and> currentQuestionIndex dictated = 0
   \<and> finalTranscript (handleSubmitAnswer None (Some fb) dictated) = finalTranscript dictated
   \<and> transcript (handleSubmitAnswer None (Some fb) dictated) = transcript dictated
   \<and> questions (handleSubmitAnswer None (Some fb) dictated) = questions dictated
   \<and> currentQuestionIndex (handleSubmitAnswer None (Some fb) dictated) = 0"
proof -
  have a: "answerToSubmit None dictated \<noteq> []"
    and b: "currentQuestionIndex dictated < length (questions dictated)"
    and c: "answerToSubmit None dictated = ''I think the answer is caching.''"
      "currentQuestionIndex dictated = 0"
    by code_simp+
  from successful_analysis_frame [OF a b, of fb] c show ?thesis
    by (simp add: Let_def)
qed

section \<open>Starting capture\<close>

text \<open>
  C9. A click on the microphone while capture is inactive empties the typed text and both
  transcript buffers, so that afterwards no input mode holds text: the answer box shows
  nothing and a submit would resolve to the empty answer. Capture is started when the
  browser offers recognition; otherwise the call on the null \<open>recognition\<close> throws, after
  the three buffers were emptied.
\<close>

theorem start_capture_clears_input:
  assumes "\<not> isListening s"
  shows "let s' = handleToggleListening s
         in transcript s' = [] \<and> finalTranscript s' = [] \<and> textAnswer s' = []
          \<and> displayedAnswer s' = [] \<and> answerToSubmit None s' = []
          \<and> isListening s' = recognition s
          \<and> effects s' = effects s @ [if recognition s then RecognitionStart else TypeError]"
  using assms
  by (simp add: handler_defs displayedAnswer_def answerToSubmit_def spokenAnswer_def trim_Nil
      Let_def)

text \<open>C9, an instance: the microphone is clicked after \<open>hello\<close> was typed.\<close>

theorem start_capture_clears_input_witness:
  "\<not> isListening typed \<and> textAnswer typed = ''hello''
   \<and> textAnswer (handleToggleListening typed) = []
   \<and> transcript (handleToggleListening typed) = []
   \<and> finalTranscript (handleToggleListening typed) = []
   \<and> isListening (handleToggleListening typed)"
proof -
  have a: "\<not> isListening typed" and c: "textAnswer typed = ''hello''" "recognition typed"
    by code_simp+
  from start_capture_clears_input [OF a] a c show ?thesis
    by (simp add: Let_def)
qed

section \<open>Advancing, and the invariants of a session\<close>

text \<open>
  C6, as stated, fails. With one question, after the turn and the advance the host state
  is \<open>COMPLETE\<close> and the index is still 0, not the number of questions.
\<close>

theorem complete_with_index_in_range:
  "map_option (appState \<circ> ui) (run (oneTurn @ [ClickNext]) (boot True [q1])) = Some COMPLETE
   \<and> map_option (currentQuestionIndex \<circ> ui) (run (oneTurn @ [ClickNext]) (boot True [q1]))
       = Some 0
   \<and> map_option (length \<circ> questions \<circ> ui) (run (oneTurn @ [ClickNext]) (boot True [q1]))
       = Some 1"
  by code_simp

text \<open>
  C6, amended. An advance cancels playback, sets the playback state to idle, clears the
  feedback, both transcript buffers and the typed text; when another question follows it
  increments the index and the host state is \<open>INTERVIEW\<close>, otherwise it leaves the index at
  the last question and the host state is \<open>COMPLETE\<close>. In every state a session with at
  least one question reaches, the index is a valid index into the questions (it never
  equals their number), and the host state is \<open>COMPLETE\<close> only at the last index.
\<close>

theorem advance_and_index:
  assumes "run es (boot rec qs) = Some y" and "qs \<noteq> []"
  shows "currentQuestionIndex (ui y) < length (questions (ui y))
       \<and> \<not> isInterviewOver (ui y)
       \<and> (if appState (ui y) = COMPLETE
          then Suc (currentQuestionIndex (ui y)) = length (questions (ui y)) else True)
       \<and> (let s' = handleNextQuestion (ui y)
          in effects s' = effects (ui y) @ [SynthCancel] \<and> speechState s' = Idle
           \<and> feedback s' = None \<and> transcript s' = [] \<and> finalTranscript s' = []
           \<and> textAnswer s' = []
           \<and> (if Suc (currentQuestionIndex (ui y)) < length (questions (ui y))
              then currentQuestionIndex s' = Suc (currentQuestionIndex (ui y))
                 \<and> appState s' = INTERVIEW
              else currentQuestionIndex s' = currentQuestionIndex (ui y)
                 \<and> appState s' = COMPLETE))"
proof -
  note inv = session_inv_fields [OF reach_inv [OF assms]]
  have "let s' = handleNextQuestion (ui y)
        in effects s' = effects (ui y) @ [SynthCancel] \<and> speechState s' = Idle
         \<and> feedback s' = None \<and> transcript s' = [] \<and> finalTranscript s' = []
         \<and> textAnswer s' = []
         \<and> (if Suc (currentQuestionIndex (ui y)) < length (questions (ui y))
            then currentQuestionIndex s' = Suc (currentQuestionIndex (ui y))
               \<and> appState s' = INTERVIEW
            else currentQuestionIndex s' = currentQuestionIndex (ui y)
               \<and> appState s' = COMPLETE)"
    by (auto simp: handleNextQuestion_def emit_def Let_def)
  with inv(1) inv(8) show ?thesis
    by (auto simp: isInterviewOver_def)
qed

text \<open>C6, an instance: the advance after the only question of a session.\<close>

theorem advance_and_index_witness:
  "\<exists>y. run oneTurn (boot True [q1]) = Some y
     \<and> currentQuestionIndex (ui y) = 0 \<and> length (questions (ui y)) = 1
     \<and> feedback (handleNextQuestion (ui y)) = None
     \<and> currentQuestionIndex (handleNextQuestion (ui y)) = 0
     \<and> appState (handleNextQuestion (ui y)) = COMPLETE"
proof -
  have "run oneTurn (boot True [q1]) \<noteq> None"
    by code_simp
  then obtain y where r: "run oneTurn (boot True [q1]) = Some y"
    by auto
  have "map_option (currentQuestionIndex \<circ> ui) (run oneTurn (boot True [q1])) = Some 0"
    "map_option (length \<circ> questions \<circ> ui) (run oneTurn (boot True [q1])) = Some 1"
    by code_simp+
  with r have c: "currentQuestionIndex (ui y) = 0" "length (questions (ui y)) = 1"
    by simp_all
  have "[q1] \<noteq> []" by simp
  from advance_and_index [OF r this] c r show ?thesis
    by (auto simp: Let_def)
qed

text \<open>
  C7, as stated, fails. After the first turn was analysed the screen holds one result
  while the index is still 0.
\<close>

theorem results_exceed_index:
  "map_option (length \<circ> results \<circ> ui) (run oneTurn (boot True [q1, q2])) = Some 1
   \<and> map_option (currentQuestionIndex \<circ> ui) (run oneTurn (boot True [q1, q2])) = Some 0"
  by code_simp

text \<open>
  C7, amended. In every state a session with at least one question reaches, the number of
  results is the index while no feedback is shown and the interview is not complete, and
  the index plus one while feedback is shown or the interview is complete; the results
  of the host are those of the screen; and whatever happens next, the results only grow
  at the end.
\<close>

theorem results_and_index:
  assumes "run es (boot rec qs) = Some y" and "qs \<noteq> []" and "run es' y = Some y'"
  shows "length (results (ui y)) = currentQuestionIndex (ui y)
           + (if feedback (ui y) \<noteq> None \<or> appState (ui y) = COMPLETE then 1 else 0)
       \<and> appResults (ui y) = results (ui y)
       \<and> prefix (results (ui y)) (results (ui y'))"
  using session_inv_fields(4,5) [OF reach_inv [OF assms(1,2)]] run_results [OF assms(3)]
  by simp

text \<open>C7, an instance: one turn, then the advance to the second question.\<close>

theorem results_and_index_witness:
  "\<exists>y y'. run oneTurn (boot True [q1, q2]) = Some y \<and> run [ClickNext] y = Some y'
     \<and> length (results (ui y)) = 1 \<and> currentQuestionIndex (ui y) = 0
     \<and> feedback (ui y) \<noteq> None
     \<and> prefix (results (ui y)) (results (ui y'))"
proof -
  have "run (oneTurn @ [ClickNext]) (boot True [q1, q2]) \<noteq> None"
    "run (oneTurn @ [ClickNext]) (boot True [q1, q2])
       = (case run oneTurn (boot True [q1, q2]) of None \<Rightarrow> None | Some y \<Rightarrow> run [ClickNext] y)"
    by code_simp+
  then obtain y y' where r: "run oneTurn (boot True [q1, q2]) = Some y"
    and r': "run [ClickNext] y = Some y'"
    by (auto split: option.splits)
  have "map_option (currentQuestionIndex \<circ> ui) (run oneTurn (boot True [q1, q2])) = Some 0"
    "map_option (feedback \<circ> ui) (run oneTurn (boot True [q1, q2])) = Some (Some fb)"
    by code_simp+
  with r have c: "currentQuestionIndex (ui y) = 0" "feedback (ui y) = Some fb"
    by simp_all
  have "[q1, q2] \<noteq> []" by simp
  from results_and_index [OF r this r'] c r r' show ?thesis
    by auto
qed

section \<open>Missing speech recognition\<close>

text \<open>
  C10. The report of a missing speech recognition is made by an effect that runs again
  whenever \<open>finalTranscript\<close> or \<open>handleSubmitAnswer\<close> changes. Without recognition the
  first render reports once, and typing one character reports a second time.
\<close>

theorem unsupported_reported_again:
  "length (unsupportedReports (mount False [q1, q2])) = 1
   \<and> map_option (length \<circ> unsupportedReports \<circ> ui) (run [Edit ''a''] (boot False [q1, q2]))
       = Some 2"
  by code_simp

end
